theory Spec2Isabelle
  imports Complex_Main
begin

section \<open>The training notebook: data model\<close>

text \<open>
  The notebook \<^verbatim>\<open>2_Training.ipynb\<close> is a sequence of cells run in one Python kernel.
  Cells 2 to 6 import the libraries, set the hyperparameters and build the data loader,
  the models, the loss and the optimizer; cell 8 is the training loop; cells 12 to 17
  run the validation pass and score it.

  The kernel's global namespace is modelled as the set of names that are bound. Reading
  a name that is not bound raises \<^verbatim>\<open>NameError\<close>; \<^verbatim>\<open>x % 0\<close> raises
  \<^verbatim>\<open>ZeroDivisionError\<close>; \<^verbatim>\<open>torch.save\<close> raises when it cannot create its file, as
  when the directory \<^verbatim>\<open>./models\<close> is missing (a \<^verbatim>\<open>RuntimeError\<close> or an
  \<^verbatim>\<open>OSError\<close>, by the library's version: \<open>SaveFailed\<close> with the path).
\<close>

datatype py_error = NameError string | ZeroDivisionError | SaveFailed string

text \<open>What happens to the log file handle \<^verbatim>\<open>f\<close>, in order.\<close>

datatype log_event = Open | Write string | Flush | Close

text \<open>
  The hyperparameters of cell 3 that the loop reads, and \<^verbatim>\<open>total_step\<close> of cell 5.
  They are Python integers.
\<close>

record config =
  num_epochs :: int
  total_step :: int
  save_every :: int
  print_every :: int

text \<open>
  The library calls of the loop are parameters: the batch that
  \<^verbatim>\<open>next(iter(data_loader))\<close> returns at the n-th fetch, the loss of the forward pass
  (\<^verbatim>\<open>criterion(decoder(encoder(images), captions).view(..), captions.view(-1)).item()\<close>),
  the effect of \<^verbatim>\<open>loss.backward(); optimizer.step()\<close> on the decoder's and the
  encoder's parameters, \<^verbatim>\<open>np.exp\<close> and the rendering \<^verbatim>\<open>:.4f\<close> of a float. The
  type \<open>'w\<close> is a parameter dictionary (\<^verbatim>\<open>state_dict()\<close>), \<open>'b\<close> a batch and \<open>'l\<close> a
  float. The file system is a parameter too: \<open>save_ok p\<close> says whether \<^verbatim>\<open>torch.save\<close>
  can create the file \<open>p\<close> (the notebook never creates \<^verbatim>\<open>./models\<close> itself).
\<close>

record ('w, 'b, 'l) env =
  next_batch :: "nat \<Rightarrow> 'b"
  batch_loss :: "'w \<times> 'w \<Rightarrow> 'b \<Rightarrow> 'l"
  optimizer_step :: "'w \<times> 'w \<Rightarrow> 'b \<Rightarrow> 'w \<times> 'w"
  np_exp :: "'l \<Rightarrow> 'l"
  fmt4 :: "'l \<Rightarrow> string"
  save_ok :: "string \<Rightarrow> bool"

text \<open>
  The state the loop acts on: the bound names, the events on the log file, what was
  printed, the files written by \<^verbatim>\<open>torch.save\<close> (path and content, in order), the
  parameters of the decoder and of the encoder, and how many batches were fetched and
  how many optimizer steps were applied.
\<close>

record 'w train_state =
  globals :: "string set"
  log_events :: "log_event list"
  stdout :: "string list"
  saved :: "(string \<times> 'w) list"
  decoder :: 'w
  encoder :: 'w
  fetched :: nat
  opt_steps :: nat

text \<open>A run either completes or stops at a raised exception, in the state reached.\<close>

datatype 's outcome = Ok 's | Raise py_error 's

section \<open>Rendering integers\<close>

text \<open>\<^verbatim>\<open>str(n)\<close>, \<^verbatim>\<open>"%d" % n\<close> and \<^verbatim>\<open>f"{n}"\<close> of a Python integer: its decimal digits.\<close>

definition digit_char :: "nat \<Rightarrow> char" where
  "digit_char d = ''0123456789'' ! d"

fun show_nat :: "nat \<Rightarrow> string" where
  "show_nat n = (if n < 10 then [digit_char n] else show_nat (n div 10) @ [digit_char (n mod 10)])"

definition str_int :: "int \<Rightarrow> string" where
  "str_int i = (if i < 0 then CHR ''-'' # show_nat (nat (- i)) else show_nat (nat i))"

text \<open>Reading a decimal rendering back, to show that the rendering loses nothing.\<close>

definition digit_val :: "char \<Rightarrow> nat" where
  "digit_val ch = of_char ch - 48"

definition read_nat :: "string \<Rightarrow> nat" where
  "read_nat s = foldl (\<lambda>a ch. 10 * a + digit_val ch) 0 s"

text \<open>
  The rendering \<^verbatim>\<open>:.4f\<close> of a float, with the floats idealised as real numbers: the
  value is rounded to the nearest multiple of 1/10000, a tie to the even one, and written
  as sign, integer part, point and four digits.
\<close>

definition round_half_even :: "real \<Rightarrow> int" where
  "round_half_even x =
     (let f = \<lfloor>x\<rfloor>; d = x - of_int f
      in if d < 1 / 2 then f else if 1 / 2 < d then f + 1 else if even f then f else f + 1)"

text \<open>Four decimal digits, with leading zeros.\<close>

definition pad4 :: "nat \<Rightarrow> string" where
  "pad4 k = [digit_char (k div 1000 mod 10), digit_char (k div 100 mod 10),
             digit_char (k div 10 mod 10), digit_char (k mod 10)]"

text \<open>The rendering itself.\<close>

definition fmt4_real :: "real \<Rightarrow> string" where
  "fmt4_real x =
     (let n = round_half_even (x * 10000)
      in (if n < 0 then ''-'' else '''') @ str_int (\<bar>n\<bar> div 10000) @ ''.'' @
         pad4 (nat (\<bar>n\<bar> mod 10000)))"

section \<open>Cell 8: the training loop\<close>

text \<open>The names bound by cells 2 to 6, in the order the cells bind them.\<close>

definition notebook_globals :: "string set" where
  "notebook_globals = set [
     ''math'', ''EncoderCNN'', ''DecoderRNN'', ''get_loader'', ''val_get_loader'', ''COCO'',
     ''transforms'', ''tqdm'', ''nn'', ''torch'', ''data'', ''defaultdict'', ''json'', ''os'',
     ''sys'', ''np'', ''clean_sentence'', ''bleu_score'',
     ''batch_size'', ''vocab_threshold'', ''vocab_from_file'', ''embed_size'', ''hidden_size'',
     ''num_epochs'', ''save_every'', ''print_every'', ''log_file'', ''cocoapi_dir'',
     ''transform_train'', ''data_loader'',
     ''vocab_size'', ''encoder'', ''decoder'', ''device'', ''criterion'', ''params'',
     ''optimizer'', ''total_step'']"

definition bind :: "string \<Rightarrow> 'w train_state \<Rightarrow> 'w train_state" where
  "bind x st = st\<lparr>globals := insert x (globals st)\<rparr>"

text \<open>The f-string of the statistics line.\<close>

definition stats :: "('w, 'b, 'l) env \<Rightarrow> config \<Rightarrow> int \<Rightarrow> int \<Rightarrow> 'l \<Rightarrow> string" where
  "stats ev c epoch i_step l =
     ''Epoch ['' @ str_int epoch @ ''/'' @ str_int (num_epochs c) @ ''], Step ['' @
     str_int i_step @ ''/'' @ str_int (total_step c) @ ''], '' @
     ''Loss: '' @ fmt4 ev l @ '', Perplexity: '' @ fmt4 ev (np_exp ev l)"

text \<open>
  One iteration of the inner loop. The statements are taken in the source's order:
  \<^verbatim>\<open>i_step\<close>, \<^verbatim>\<open>indices\<close> and \<^verbatim>\<open>new_saosmpler\<close> are bound, then
  \<^verbatim>\<open>new_sampler\<close> is read for the assignment to the loader's sampler; the batch is
  fetched, the loss computed from the parameters as they are, the parameters updated by
  the backward pass and the optimizer step, the statistics line written and flushed,
  and printed when \<^verbatim>\<open>i_step % print_every == 0\<close>. The other names the body reads are
  bound by cells 2 to 6. Moving the batch to the device and zeroing the gradients change
  nothing that is observed here; they are part of \<open>batch_loss\<close> and \<open>optimizer_step\<close>.
\<close>

definition train_step ::
  "('w, 'b, 'l) env \<Rightarrow> config \<Rightarrow> int \<Rightarrow> int \<Rightarrow> 'w train_state \<Rightarrow> 'w train_state outcome" where
  "train_step ev c epoch i_step st0 =
     (let st1 = bind ''new_saosmpler'' (bind ''indices'' (bind ''i_step'' st0)) in
      if ''new_sampler'' \<notin> globals st1 then Raise (NameError ''new_sampler'') st1
      else
        let b = next_batch ev (fetched st1);
            st2 = bind ''captions'' (bind ''images'' (st1\<lparr>fetched := Suc (fetched st1)\<rparr>));
            l = batch_loss ev (decoder st2, encoder st2) b;
            st3 = bind ''loss'' (bind ''outputs'' (bind ''features'' st2));
            (d, e) = optimizer_step ev (decoder st3, encoder st3) b;
            st4 = st3\<lparr>decoder := d, encoder := e, opt_steps := Suc (opt_steps st3)\<rparr>;
            line = stats ev c epoch i_step l;
            st5 = bind ''stats'' st4;
            st6 = st5\<lparr>log_events := log_events st5 @ [Write (line @ [CHR 0x0A]), Flush]\<rparr>
        in if print_every c = 0 then Raise ZeroDivisionError st6
           else if i_step mod print_every c = 0
             then Ok (st6\<lparr>stdout := stdout st6 @ [CHR 0x0D # line]\<rparr>)
             else Ok st6)"

text \<open>\<^verbatim>\<open>for i_step in range(1, total_step + 1)\<close>: the body on each value, until one raises.\<close>

fun run_steps ::
  "('w, 'b, 'l) env \<Rightarrow> config \<Rightarrow> int \<Rightarrow> int list \<Rightarrow> 'w train_state \<Rightarrow> 'w train_state outcome" where
  "run_steps ev c epoch [] st = Ok st"
| "run_steps ev c epoch (i # rest) st =
     (case train_step ev c epoch i st of
        Ok st' \<Rightarrow> run_steps ev c epoch rest st'
      | Raise err st' \<Rightarrow> Raise err st')"

text \<open>The paths of the two checkpoint files of an epoch.\<close>

definition decoder_path :: "int \<Rightarrow> string" where
  "decoder_path epoch = ''./models'' @ ''/'' @ (''decoder-'' @ str_int epoch @ ''.pkl'')"

definition encoder_path :: "int \<Rightarrow> string" where
  "encoder_path epoch = ''./models'' @ ''/'' @ (''encoder-'' @ str_int epoch @ ''.pkl'')"

text \<open>
  The block \<^verbatim>\<open>if epoch % save_every == 0: torch.save(..); torch.save(..)\<close>: the
  decoder's parameters are saved first, then the encoder's, and a save that cannot
  create its file raises and leaves what was saved before it.
\<close>

definition save_weights ::
  "('w, 'b, 'l) env \<Rightarrow> config \<Rightarrow> int \<Rightarrow> 'w train_state \<Rightarrow> 'w train_state outcome" where
  "save_weights ev c epoch st =
     (if save_every c = 0 then Raise ZeroDivisionError st
      else if epoch mod save_every c = 0
        then
          if \<not> save_ok ev (decoder_path epoch) then Raise (SaveFailed (decoder_path epoch)) st
          else
            let st1 = st\<lparr>saved := saved st @ [(decoder_path epoch, decoder st)]\<rparr> in
            if \<not> save_ok ev (encoder_path epoch)
            then Raise (SaveFailed (encoder_path epoch)) st1
            else Ok (st1\<lparr>saved := saved st1 @ [(encoder_path epoch, encoder st1)]\<rparr>)
        else Ok st)"

text \<open>The paths an epoch saves to, when it reaches its end: both files or none.\<close>

definition epoch_paths :: "config \<Rightarrow> int \<Rightarrow> string list" where
  "epoch_paths c e = (if e mod save_every c = 0 then [decoder_path e, encoder_path e] else [])"

text \<open>The body of the outer loop: the steps of the epoch, then the checkpoint.\<close>

definition run_epoch ::
  "('w, 'b, 'l) env \<Rightarrow> config \<Rightarrow> int \<Rightarrow> 'w train_state \<Rightarrow> 'w train_state outcome" where
  "run_epoch ev c epoch st =
     (case run_steps ev c epoch [1..total_step c] (bind ''epoch'' st) of
        Ok st' \<Rightarrow> save_weights ev c epoch st'
      | Raise err st' \<Rightarrow> Raise err st')"

fun run_epochs ::
  "('w, 'b, 'l) env \<Rightarrow> config \<Rightarrow> int list \<Rightarrow> 'w train_state \<Rightarrow> 'w train_state outcome" where
  "run_epochs ev c [] st = Ok st"
| "run_epochs ev c (e # rest) st =
     (case run_epoch ev c e st of
        Ok st' \<Rightarrow> run_epochs ev c rest st'
      | Raise err st' \<Rightarrow> Raise err st')"

text \<open>
  The whole cell: the log file is opened, the epochs run, the file is closed. An
  exception leaves the cell at once, so the \<^verbatim>\<open>f.close()\<close> of the last line is not
  reached.
\<close>

definition training_loop ::
  "('w, 'b, 'l) env \<Rightarrow> config \<Rightarrow> 'w train_state \<Rightarrow> 'w train_state outcome" where
  "training_loop ev c st =
     (case run_epochs ev c [1..num_epochs c]
             (bind ''f'' (st\<lparr>log_events := log_events st @ [Open]\<rparr>)) of
        Ok st' \<Rightarrow> Ok (st'\<lparr>log_events := log_events st' @ [Close]\<rparr>)
      | Raise err st' \<Rightarrow> Raise err st')"

text \<open>Reading an outcome: the state reached, whether the run completed, what it raised.\<close>

fun final :: "'s outcome \<Rightarrow> 's" where
  "final (Ok s) = s"
| "final (Raise err s) = s"

fun completed :: "'s outcome \<Rightarrow> bool" where
  "completed (Ok s) = True"
| "completed (Raise err s) = False"

fun raised :: "'s outcome \<Rightarrow> py_error option" where
  "raised (Ok s) = None"
| "raised (Raise err s) = Some err"

text \<open>
  The state in which cell 8 starts: cells 2 to 6 have bound their names, and \<open>extra\<close> is
  whatever else the kernel holds from earlier use (nothing, when the notebook is run top
  to bottom in a fresh kernel). Nothing is logged, printed, saved, fetched or stepped
  yet, and the models have their initial parameters.
\<close>

definition start_state :: "string set \<Rightarrow> 'w \<Rightarrow> 'w \<Rightarrow> 'w train_state" where
  "start_state extra d e =
     \<lparr>globals = notebook_globals \<union> extra, log_events = [], stdout = [], saved = [],
      decoder = d, encoder = e, fetched = 0, opt_steps = 0\<rparr>"

text \<open>
  The lines the log file holds: \<^verbatim>\<open>open(.., "w")\<close> empties it, a write goes to the
  handle's buffer, a flush or a close moves the buffer to the file.
\<close>

fun on_disk :: "string list \<Rightarrow> string list \<Rightarrow> log_event list \<Rightarrow> string list" where
  "on_disk disk buf [] = disk"
| "on_disk disk buf (Open # evs) = on_disk [] [] evs"
| "on_disk disk buf (Write s # evs) = on_disk disk (buf @ [s]) evs"
| "on_disk disk buf (Flush # evs) = on_disk (disk @ buf) [] evs"
| "on_disk disk buf (Close # evs) = on_disk (disk @ buf) [] evs"

definition log_lines :: "log_event list \<Rightarrow> string list" where
  "log_lines evs = on_disk [] [] evs"

text \<open>The events of writing each of the lines \<open>ws\<close> and flushing right after it.\<close>

definition flushed_writes :: "string list \<Rightarrow> log_event list" where
  "flushed_writes ws = concat (map (\<lambda>w. [Write w, Flush]) ws)"

section \<open>Cell 13: the validation inference pass\<close>

text \<open>
  The calls into the models and into \<^verbatim>\<open>nlp_utils\<close> are parameters:
  \<^verbatim>\<open>encoder(img)\<close>, \<^verbatim>\<open>.unsqueeze(1)\<close>, \<^verbatim>\<open>decoder.sample(features)\<close> and
  \<^verbatim>\<open>clean_sentence(output, idx2word)\<close> for the loader's vocabulary.
\<close>

record ('i, 'f, 'o) val_env =
  val_encoder :: "'i \<Rightarrow> 'f"
  unsqueeze :: "'f \<Rightarrow> 'f"
  sample :: "'f \<Rightarrow> 'o"
  clean_sentence :: "'o \<Rightarrow> string"

text \<open>
  \<^verbatim>\<open>pred_result\<close> is a \<^verbatim>\<open>defaultdict(list)\<close> from image ids to lists of captions. The
  images the encoder was run on and the features the decoder sampled from are recorded
  in call order.
\<close>

record ('i, 'f) val_state =
  pred_result :: "int \<rightharpoonup> string list"
  encoder_calls :: "'i list"
  sample_calls :: "'f list"

text \<open>\<^verbatim>\<open>d[k]\<close> on a \<^verbatim>\<open>defaultdict(list)\<close>: the empty list for a key not yet present.\<close>

definition getitem :: "(int \<rightharpoonup> string list) \<Rightarrow> int \<Rightarrow> string list" where
  "getitem m k = (case m k of None \<Rightarrow> [] | Some cs \<Rightarrow> cs)"

text \<open>The body of the loop of cell 13, for one pair of the validation loader.\<close>

definition infer_one ::
  "('i, 'f, 'o) val_env \<Rightarrow> int \<times> 'i \<Rightarrow> ('i, 'f) val_state \<Rightarrow> ('i, 'f) val_state" where
  "infer_one ve p st =
     (let img_id = fst p; img = snd p;
          features = unsqueeze ve (val_encoder ve img);
          output = sample ve features;
          sentence = clean_sentence ve output
      in st\<lparr>pred_result := (pred_result st)(img_id \<mapsto> getitem (pred_result st) img_id @ [sentence]),
             encoder_calls := encoder_calls st @ [img],
             sample_calls := sample_calls st @ [features]\<rparr>)"

fun infer_all ::
  "('i, 'f, 'o) val_env \<Rightarrow> (int \<times> 'i) list \<Rightarrow> ('i, 'f) val_state \<Rightarrow> ('i, 'f) val_state" where
  "infer_all ve [] st = st"
| "infer_all ve (p # ps) st = infer_all ve ps (infer_one ve p st)"

definition val_start :: "('i, 'f) val_state" where
  "val_start = \<lparr>pred_result = Map.empty, encoder_calls = [], sample_calls = []\<rparr>"

section \<open>Cell 17: BLEU scoring\<close>

text \<open>
  Modelled from the spec: \<^verbatim>\<open>bleu_score\<close> is imported from \<^verbatim>\<open>nlp_utils\<close>, which is not
  among the sources; the notebook only calls it on the reference map and the prediction
  map. The spec's contract is: for each key present in both maps, a per-image score
  between the candidate captions and the references, then the mean over the scored
  images. The spec does not define the per-image metric (tokenisation, n-gram order and
  smoothing are left open), so it is the parameter \<open>per_image\<close>, and it does not say what
  the mean over no image is, so the model returns \<open>None\<close> there. The maps are Python
  dictionaries, modelled as association lists in insertion order.
\<close>

definition scored_pairs ::
  "(int \<times> string list) list \<Rightarrow> (int \<times> string list) list \<Rightarrow> (string list \<times> string list) list" where
  "scored_pairs refs preds =
     concat (map (\<lambda>(k, r). case map_of preds k of None \<Rightarrow> [] | Some p \<Rightarrow> [(r, p)]) refs)"

definition bleu_score ::
  "(string list \<Rightarrow> string list \<Rightarrow> real) \<Rightarrow>
   (int \<times> string list) list \<Rightarrow> (int \<times> string list) list \<Rightarrow> real option" where
  "bleu_score per_image refs preds =
     (let ps = scored_pairs refs preds
      in if ps = [] then None
         else Some (sum_list (map (\<lambda>(r, p). per_image r p) ps) / real (length ps)))"

section \<open>Concrete inputs\<close>

text \<open>
  The values cell 3 sets and cell 6 prints: three epochs of 3236 steps, a checkpoint
  after every epoch, a printed line every 20 steps.
\<close>

definition notebook_config :: config where
  "notebook_config = \<lparr>num_epochs = 3, total_step = 3236, save_every = 1, print_every = 20\<rparr>"

text \<open>
  A small environment on which the definitions can be evaluated: integers stand for the
  parameters and for the floats, the n-th batch is the number n, and every file can be
  created.
\<close>

definition toy_env :: "(int, nat, int) env" where
  "toy_env = \<lparr>next_batch = (\<lambda>n. n),
              batch_loss = (\<lambda>w b. fst w + snd w + int b),
              optimizer_step = (\<lambda>w b. (fst w + 1, snd w + 2)),
              np_exp = (\<lambda>l. 2 * l),
              fmt4 = (\<lambda>l. str_int l @ ''.0000''),
              save_ok = (\<lambda>p. True)\<rparr>"

text \<open>One epoch of two steps, in a kernel that already holds a \<^verbatim>\<open>new_sampler\<close>.\<close>

definition two_step_config :: config where
  "two_step_config = \<lparr>num_epochs = 1, total_step = 2, save_every = 1, print_every = 2\<rparr>"

text \<open>Three epochs over an empty data set: no step, a checkpoint every second epoch.\<close>

definition no_step_config :: config where
  "no_step_config = \<lparr>num_epochs = 3, total_step = 0, save_every = 2, print_every = 20\<rparr>"

text \<open>
  An environment with real numbers for the floats: every batch has the loss 0.99996,
  \<^verbatim>\<open>np.exp\<close> is the exponential function and \<^verbatim>\<open>:.4f\<close> the rendering above. The
  loss, its exponential and the exponential of 1 are 0.00001 or more away from every
  value where the fourth decimal changes, so the rounding error of floats does not
  change a digit.
\<close>

definition real_env :: "(int, nat, real) env" where
  "real_env = \<lparr>next_batch = (\<lambda>n. n),
               batch_loss = (\<lambda>w b. 99996 / 100000),
               optimizer_step = (\<lambda>w b. w),
               np_exp = exp,
               fmt4 = fmt4_real,
               save_ok = (\<lambda>p. True)\<rparr>"

text \<open>One epoch of one step.\<close>

definition one_step_config :: config where
  "one_step_config = \<lparr>num_epochs = 1, total_step = 1, save_every = 1, print_every = 20\<rparr>"

section \<open>The first step of the loop\<close>

lemma upto_first: "(1::int) \<le> n \<Longrightarrow> [1..n] = 1 # [2..n]"
  by (simp add: upto_rec1)

lemma train_step_unbound:
  assumes "''new_sampler'' \<notin> globals st"
  shows "train_step ev c epoch i st =
           Raise (NameError ''new_sampler'')
             (bind ''new_saosmpler'' (bind ''indices'' (bind ''i_step'' st)))"
  using assms by (simp add: train_step_def bind_def)

lemma run_epoch_unbound:
  assumes "''new_sampler'' \<notin> globals st" and "1 \<le> total_step c"
  shows "run_epoch ev c epoch st =
           Raise (NameError ''new_sampler'')
             (bind ''new_saosmpler'' (bind ''indices'' (bind ''i_step'' (bind ''epoch'' st))))"
proof -
  have "''new_sampler'' \<notin> globals (bind ''epoch'' st)"
    using assms(1) by (simp add: bind_def)
  then show ?thesis
    using assms(2) by (simp add: run_epoch_def upto_first train_step_unbound)
qed

lemma training_loop_unbound:
  assumes "''new_sampler'' \<notin> globals st" and "1 \<le> num_epochs c" and "1 \<le> total_step c"
  shows "training_loop ev c st =
           Raise (NameError ''new_sampler'')
             (bind ''new_saosmpler'' (bind ''indices'' (bind ''i_step'' (bind ''epoch''
               (bind ''f'' (st\<lparr>log_events := log_events st @ [Open]\<rparr>))))))"
proof -
  have "''new_sampler'' \<notin> globals (bind ''f'' (st\<lparr>log_events := log_events st @ [Open]\<rparr>))"
    using assms(1) by (simp add: bind_def)
  then show ?thesis
    using assms(2,3) by (simp add: training_loop_def upto_first run_epoch_unbound)
qed

lemma new_sampler_not_bound: "''new_sampler'' \<notin> notebook_globals"
  by (simp add: notebook_globals_def)


section \<open>What a step, an epoch and a run do to the state\<close>

lemma bind_fields [simp]:
  "globals (bind x st) = insert x (globals st)"
  "log_events (bind x st) = log_events st"
  "stdout (bind x st) = stdout st"
  "saved (bind x st) = saved st"
  "decoder (bind x st) = decoder st"
  "encoder (bind x st) = encoder st"
  "fetched (bind x st) = fetched st"
  "opt_steps (bind x st) = opt_steps st"
  by (simp_all add: bind_def)

lemma flushed_writes_simps [simp]:
  "flushed_writes [] = []"
  "flushed_writes (w # ws) = Write w # Flush # flushed_writes ws"
  "flushed_writes (ws @ vs) = flushed_writes ws @ flushed_writes vs"
  by (simp_all add: flushed_writes_def)

lemma train_step_saved: "saved (final (train_step ev c epoch i st)) = saved st"
  by (simp add: train_step_def Let_def split: prod.splits)

lemma train_step_log:
  "\<exists>ws. log_events (final (train_step ev c epoch i st)) = log_events st @ flushed_writes ws
        \<and> (\<forall>w\<in>set ws. \<exists>ep k p b. w = stats ev c ep k (batch_loss ev p b) @ [CHR 0x0A])"
proof (cases "''new_sampler'' \<in> globals st")
  case False
  then have "log_events (final (train_step ev c epoch i st)) = log_events st @ flushed_writes []"
    by (simp add: train_step_def)
  moreover have "\<forall>w\<in>set []. \<exists>ep k p b. w = stats ev c ep k (batch_loss ev p b) @ [CHR 0x0A]"
    by simp
  ultimately show ?thesis by (intro exI [of _ "[]"] conjI)
next
  case True
  let ?l = "batch_loss ev (decoder st, encoder st) (next_batch ev (fetched st))"
  from True have "log_events (final (train_step ev c epoch i st)) =
      log_events st @ flushed_writes [stats ev c epoch i ?l @ [CHR 0x0A]]"
    by (simp add: train_step_def Let_def split: prod.splits)
  moreover have "\<forall>w\<in>set [stats ev c epoch i ?l @ [CHR 0x0A]].
      \<exists>ep k p b. w = stats ev c ep k (batch_loss ev p b) @ [CHR 0x0A]"
    by (simp del: append_eq_append_conv append_same_eq) blast
  ultimately show ?thesis
    by (intro exI [of _ "[stats ev c epoch i ?l @ [CHR 0x0A]]"] conjI)
qed

lemma run_steps_saved: "saved (final (run_steps ev c epoch is st)) = saved st"
proof (induction "is" arbitrary: st)
  case Nil
  show ?case by simp
next
  case (Cons i rest)
  show ?case
  proof (cases "train_step ev c epoch i st")
    case (Ok st')
    with Cons.IH [of st'] train_step_saved [of ev c epoch i st] show ?thesis by simp
  next
    case (Raise err st')
    with train_step_saved [of ev c epoch i st] show ?thesis by simp
  qed
qed

lemma run_steps_log:
  "\<exists>ws. log_events (final (run_steps ev c epoch is st)) = log_events st @ flushed_writes ws
        \<and> (\<forall>w\<in>set ws. \<exists>ep k p b. w = stats ev c ep k (batch_loss ev p b) @ [CHR 0x0A])"
proof (induction "is" arbitrary: st)
  case Nil
  have "log_events (final (run_steps ev c epoch [] st)) = log_events st @ flushed_writes []"
    by simp
  moreover have "\<forall>w\<in>set []. \<exists>ep k p b. w = stats ev c ep k (batch_loss ev p b) @ [CHR 0x0A]"
    by simp
  ultimately show ?case by (intro exI [of _ "[]"] conjI)
next
  case (Cons i rest)
  obtain ws where ws: "log_events (final (train_step ev c epoch i st)) =
      log_events st @ flushed_writes ws"
    and wsP: "\<forall>w\<in>set ws. \<exists>ep k p b. w = stats ev c ep k (batch_loss ev p b) @ [CHR 0x0A]"
    using train_step_log [of ev c epoch i st] by auto
  show ?case
  proof (cases "train_step ev c epoch i st")
    case (Ok st')
    obtain vs where vs: "log_events (final (run_steps ev c epoch rest st')) =
        log_events st' @ flushed_writes vs"
      and vsP: "\<forall>w\<in>set vs. \<exists>ep k p b. w = stats ev c ep k (batch_loss ev p b) @ [CHR 0x0A]"
      using Cons.IH [of st'] by auto
    from Ok ws vs have "log_events (final (run_steps ev c epoch (i # rest) st)) =
        log_events st @ flushed_writes (ws @ vs)"
      by simp
    moreover from wsP vsP have "\<forall>w\<in>set (ws @ vs). \<exists>ep k p b. w = stats ev c ep k (batch_loss ev p b) @ [CHR 0x0A]"
      by (simp add: ball_Un)
    ultimately show ?thesis by (intro exI [of _ "ws @ vs"] conjI)
  next
    case (Raise err st')
    with ws have "log_events (final (run_steps ev c epoch (i # rest) st)) =
        log_events st @ flushed_writes ws"
      by simp
    with wsP show ?thesis by (intro exI [of _ ws] conjI)
  qed
qed

lemma save_weights_log: "log_events (final (save_weights ev c epoch st)) = log_events st"
  by (simp add: save_weights_def Let_def)

lemma run_epoch_log:
  "\<exists>ws. log_events (final (run_epoch ev c epoch st)) = log_events st @ flushed_writes ws
        \<and> (\<forall>w\<in>set ws. \<exists>ep k p b. w = stats ev c ep k (batch_loss ev p b) @ [CHR 0x0A])"
proof -
  obtain ws where ws: "log_events (final (run_steps ev c epoch [1..total_step c] (bind ''epoch'' st))) =
      log_events st @ flushed_writes ws"
    and wsP: "\<forall>w\<in>set ws. \<exists>ep k p b. w = stats ev c ep k (batch_loss ev p b) @ [CHR 0x0A]"
    using run_steps_log [of ev c epoch "[1..total_step c]" "bind ''epoch'' st"] by auto
  have "log_events (final (run_epoch ev c epoch st)) = log_events st @ flushed_writes ws"
  proof (cases "run_steps ev c epoch [1..total_step c] (bind ''epoch'' st)")
    case (Ok st')
    with ws show ?thesis by (simp add: run_epoch_def save_weights_log)
  next
    case (Raise err st')
    with ws show ?thesis by (simp add: run_epoch_def)
  qed
  with wsP show ?thesis by (intro exI [of _ ws] conjI)
qed

lemma run_epochs_log:
  "\<exists>ws. log_events (final (run_epochs ev c es st)) = log_events st @ flushed_writes ws
        \<and> (\<forall>w\<in>set ws. \<exists>ep k p b. w = stats ev c ep k (batch_loss ev p b) @ [CHR 0x0A])"
proof (induction es arbitrary: st)
  case Nil
  have "log_events (final (run_epochs ev c [] st)) = log_events st @ flushed_writes []"
    by simp
  moreover have "\<forall>w\<in>set []. \<exists>ep k p b. w = stats ev c ep k (batch_loss ev p b) @ [CHR 0x0A]"
    by simp
  ultimately show ?case by (intro exI [of _ "[]"] conjI)
next
  case (Cons e rest)
  obtain ws where ws: "log_events (final (run_epoch ev c e st)) = log_events st @ flushed_writes ws"
    and wsP: "\<forall>w\<in>set ws. \<exists>ep k p b. w = stats ev c ep k (batch_loss ev p b) @ [CHR 0x0A]"
    using run_epoch_log [of ev c e st] by auto
  show ?case
  proof (cases "run_epoch ev c e st")
    case (Ok st')
    obtain vs where vs: "log_events (final (run_epochs ev c rest st')) =
        log_events st' @ flushed_writes vs"
      and vsP: "\<forall>w\<in>set vs. \<exists>ep k p b. w = stats ev c ep k (batch_loss ev p b) @ [CHR 0x0A]"
      using Cons.IH [of st'] by auto
    from Ok ws vs have "log_events (final (run_epochs ev c (e # rest) st)) =
        log_events st @ flushed_writes (ws @ vs)"
      by simp
    moreover from wsP vsP have "\<forall>w\<in>set (ws @ vs). \<exists>ep k p b. w = stats ev c ep k (batch_loss ev p b) @ [CHR 0x0A]"
      by (simp add: ball_Un)
    ultimately show ?thesis by (intro exI [of _ "ws @ vs"] conjI)
  next
    case (Raise err st')
    with ws have "log_events (final (run_epochs ev c (e # rest) st)) =
        log_events st @ flushed_writes ws"
      by simp
    with wsP show ?thesis by (intro exI [of _ ws] conjI)
  qed
qed

lemma on_disk_flushed:
  "on_disk disk [] (flushed_writes ws @ evs) = on_disk (disk @ ws) [] evs"
  by (induction ws arbitrary: disk) simp_all

lemma train_step_line:
  assumes "''new_sampler'' \<in> globals st"
  shows "log_events (final (train_step ev c epoch i st)) =
           log_events st @
             [Write (stats ev c epoch i
                       (batch_loss ev (decoder st, encoder st) (next_batch ev (fetched st))) @
                     [CHR 0x0A]),
              Flush]"
  using assms by (simp add: train_step_def Let_def split: prod.splits)

lemma training_loop_log_shape:
  "\<exists>ws. log_events (final (training_loop ev c (start_state extra d e))) =
          Open # flushed_writes ws @
            (if completed (training_loop ev c (start_state extra d e)) then [Close] else [])
        \<and> log_lines (log_events (final (training_loop ev c (start_state extra d e)))) = ws
        \<and> (\<forall>w\<in>set ws. \<exists>ep k p b. w = stats ev c ep k (batch_loss ev p b) @ [CHR 0x0A])"
proof -
  let ?st = "bind ''f''
    ((start_state extra d e)\<lparr>log_events := log_events (start_state extra d e) @ [Open]\<rparr>)"
  obtain ws where ws: "log_events (final (run_epochs ev c [1..num_epochs c] ?st)) =
      log_events ?st @ flushed_writes ws"
    and wsP: "\<forall>w\<in>set ws. \<exists>ep k p b. w = stats ev c ep k (batch_loss ev p b) @ [CHR 0x0A]"
    using run_epochs_log [of ev c "[1..num_epochs c]" ?st] by auto
  have start: "log_events ?st = [Open]"
    by (simp add: start_state_def)
  have shape: "log_events (final (training_loop ev c (start_state extra d e))) =
          Open # flushed_writes ws @
            (if completed (training_loop ev c (start_state extra d e)) then [Close] else [])"
  proof (cases "run_epochs ev c [1..num_epochs c] ?st")
    case (Ok st')
    with ws start show ?thesis by (simp add: training_loop_def)
  next
    case (Raise err st')
    with ws start show ?thesis by (simp add: training_loop_def)
  qed
  have "on_disk [] [] (Open # flushed_writes ws @
            (if completed (training_loop ev c (start_state extra d e)) then [Close] else [])) = ws"
    by (simp add: on_disk_flushed)
  with shape have "log_lines (log_events (final (training_loop ev c (start_state extra d e)))) = ws"
    by (simp add: log_lines_def)
  with shape wsP show ?thesis by (intro exI [of _ ws] conjI)
qed

lemma save_weights_completed:
  "completed (save_weights ev c epoch st) =
     (save_every c \<noteq> 0 \<and>
      (epoch mod save_every c = 0 \<longrightarrow>
         save_ok ev (decoder_path epoch) \<and> save_ok ev (encoder_path epoch)))"
  by (simp add: save_weights_def Let_def)

lemma save_weights_saved:
  "completed (save_weights ev c epoch st) \<Longrightarrow>
     saved (final (save_weights ev c epoch st)) =
       saved st @ (if epoch mod save_every c = 0
                   then [(decoder_path epoch, decoder st), (encoder_path epoch, encoder st)]
                   else [])"
  by (simp add: save_weights_def Let_def split: if_splits)

lemma save_weights_raised:
  "\<not> completed (save_weights ev c epoch st) \<Longrightarrow>
     saved (final (save_weights ev c epoch st)) =
       saved st @ (if save_every c \<noteq> 0 \<and> save_ok ev (decoder_path epoch)
                   then [(decoder_path epoch, decoder st)] else [])"
  by (simp add: save_weights_def Let_def split: if_splits)

lemma save_weights_models:
  "decoder (final (save_weights ev c epoch st)) = decoder st"
  "encoder (final (save_weights ev c epoch st)) = encoder st"
  by (simp_all add: save_weights_def Let_def)

lemma run_epoch_completed:
  "completed (run_epoch ev c epoch st) =
     (completed (run_steps ev c epoch [1..total_step c] (bind ''epoch'' st)) \<and>
      save_every c \<noteq> 0 \<and>
      (epoch mod save_every c = 0 \<longrightarrow>
         save_ok ev (decoder_path epoch) \<and> save_ok ev (encoder_path epoch)))"
  by (cases "run_steps ev c epoch [1..total_step c] (bind ''epoch'' st)")
    (simp_all add: run_epoch_def save_weights_completed)

lemma run_epoch_checkpoint:
  assumes "completed (run_epoch ev c epoch st)"
  shows "saved (final (run_epoch ev c epoch st)) =
       saved st @
         (if epoch mod save_every c = 0
          then [(decoder_path epoch, decoder (final (run_epoch ev c epoch st))),
                (encoder_path epoch, encoder (final (run_epoch ev c epoch st)))]
          else [])"
proof (cases "run_steps ev c epoch [1..total_step c] (bind ''epoch'' st)")
  case (Ok st')
  have same: "saved st' = saved st"
    using run_steps_saved [of ev c epoch "[1..total_step c]" "bind ''epoch'' st"] Ok by simp
  from assms Ok have "completed (save_weights ev c epoch st')"
    by (simp add: run_epoch_def)
  from save_weights_saved [OF this] same Ok show ?thesis
    by (simp add: run_epoch_def save_weights_models)
next
  case (Raise err st')
  with assms show ?thesis by (simp add: run_epoch_def)
qed

lemma run_epoch_steps_raise:
  assumes "\<not> completed (run_steps ev c epoch [1..total_step c] (bind ''epoch'' st))"
  shows "saved (final (run_epoch ev c epoch st)) = saved st"
proof (cases "run_steps ev c epoch [1..total_step c] (bind ''epoch'' st)")
  case (Ok st')
  with assms show ?thesis by simp
next
  case (Raise err st')
  have "saved st' = saved st"
    using run_steps_saved [of ev c epoch "[1..total_step c]" "bind ''epoch'' st"] Raise by simp
  with Raise show ?thesis by (simp add: run_epoch_def)
qed

lemma checkpoint_paths:
  "decoder_path epoch = ''./models/decoder-'' @ str_int epoch @ ''.pkl''"
  "encoder_path epoch = ''./models/encoder-'' @ str_int epoch @ ''.pkl''"
  by (simp_all add: decoder_path_def encoder_path_def)

lemma run_epochs_checkpoints:
  "completed (run_epochs ev c es st) \<Longrightarrow>
     map fst (saved (final (run_epochs ev c es st))) =
       map fst (saved st) @ concat (map (epoch_paths c) es)"
proof (induction es arbitrary: st)
  case Nil
  show ?case by simp
next
  case (Cons e rest)
  show ?case
  proof (cases "run_epoch ev c e st")
    case (Ok st')
    then have "completed (run_epoch ev c e st)" by simp
    from run_epoch_checkpoint [OF this] Ok
    have one: "map fst (saved st') = map fst (saved st) @ epoch_paths c e"
      by (simp add: epoch_paths_def)
    from Cons.prems Ok have "completed (run_epochs ev c rest st')" by simp
    from Cons.IH [OF this] one Ok show ?thesis by simp
  next
    case (Raise err st')
    with Cons.prems show ?thesis by simp
  qed
qed

lemma training_loop_checkpoints:
  assumes "completed (training_loop ev c (start_state extra d e))"
  shows "map fst (saved (final (training_loop ev c (start_state extra d e)))) =
           concat (map (epoch_paths c) [1..num_epochs c])"
proof -
  let ?st = "bind ''f''
    ((start_state extra d e)\<lparr>log_events := log_events (start_state extra d e) @ [Open]\<rparr>)"
  show ?thesis
  proof (cases "run_epochs ev c [1..num_epochs c] ?st")
    case (Ok st')
    then have "completed (run_epochs ev c [1..num_epochs c] ?st)" by simp
    from run_epochs_checkpoints [OF this] Ok show ?thesis
      by (simp add: training_loop_def start_state_def)
  next
    case (Raise err st')
    with assms show ?thesis by (simp add: training_loop_def)
  qed
qed

lemma no_step_run:
  "training_loop toy_env no_step_config (start_state {} 10 20) =
     Ok \<lparr>globals = {''epoch'', ''f''} \<union> notebook_globals,
         log_events = [Open, Close], stdout = [],
         saved = [(''./models/decoder-2.pkl'', 10), (''./models/encoder-2.pkl'', 20)],
         decoder = 10, encoder = 20, fetched = 0, opt_steps = 0\<rparr>"
  by code_simp

lemma no_step_run_without_models_directory:
  "training_loop (toy_env\<lparr>save_ok := \<lambda>p. False\<rparr>) no_step_config (start_state {} 10 20) =
     Raise (SaveFailed ''./models/decoder-2.pkl'')
       \<lparr>globals = {''epoch'', ''f''} \<union> notebook_globals,
        log_events = [Open], stdout = [], saved = [],
        decoder = 10, encoder = 20, fetched = 0, opt_steps = 0\<rparr>"
  by code_simp

section \<open>The decimal rendering is injective\<close>

declare show_nat.simps [simp del]

lemma digit_char_val: "d < 10 \<Longrightarrow> digit_val (digit_char d) = d"
proof -
  assume "d < 10"
  then have "d \<in> {0, 1, 2, 3, 4, 5, 6, 7, 8, 9}" by auto
  then show ?thesis
    by (auto simp: digit_val_def digit_char_def)
qed

lemma digit_char_not_minus: "d < 10 \<Longrightarrow> digit_char d \<noteq> CHR ''-''"
proof -
  assume "d < 10"
  then have "d \<in> {0, 1, 2, 3, 4, 5, 6, 7, 8, 9}" by auto
  then show ?thesis
    by (auto simp: digit_char_def)
qed

lemma read_show_nat: "read_nat (show_nat n) = n"
proof (induction n rule: show_nat.induct)
  case (1 n)
  show ?case
  proof (cases "n < 10")
    case True
    then show ?thesis
      by (simp add: show_nat.simps [of n] read_nat_def digit_char_val)
  next
    case False
    with "1" have "read_nat (show_nat (n div 10)) = n div 10" by simp
    with False show ?thesis
      by (simp add: show_nat.simps [of n] read_nat_def digit_char_val)
  qed
qed

lemma show_nat_no_minus: "CHR ''-'' \<notin> set (show_nat n)"
proof (induction n rule: show_nat.induct)
  case (1 n)
  show ?case
  proof (cases "n < 10")
    case True
    then show ?thesis
      using digit_char_not_minus [of n] by (simp add: show_nat.simps [of n])
  next
    case False
    with "1" have "CHR ''-'' \<notin> set (show_nat (n div 10))" by simp
    with False show ?thesis
      using digit_char_not_minus [of "n mod 10"] by (simp add: show_nat.simps [of n])
  qed
qed

lemma show_nat_inj: "show_nat a = show_nat b \<Longrightarrow> a = b"
  by (metis read_show_nat)

lemma str_int_inj: "str_int i = str_int j \<longleftrightarrow> i = j"
proof
  assume eq: "str_int i = str_int j"
  show "i = j"
  proof (cases "i < 0")
    case True
    note i = this
    show ?thesis
    proof (cases "j < 0")
      case True
      with i eq have "show_nat (nat (- i)) = show_nat (nat (- j))"
        by (simp add: str_int_def)
      then have "nat (- i) = nat (- j)" by (rule show_nat_inj)
      with i True show ?thesis by simp
    next
      case False
      with i eq have "CHR ''-'' # show_nat (nat (- i)) = show_nat (nat j)"
        by (simp add: str_int_def)
      then have "CHR ''-'' \<in> set (show_nat (nat j))" by (metis list.set_intros(1))
      then show ?thesis using show_nat_no_minus by blast
    qed
  next
    case False
    note i = this
    show ?thesis
    proof (cases "j < 0")
      case True
      with i eq have "show_nat (nat i) = CHR ''-'' # show_nat (nat (- j))"
        by (simp add: str_int_def)
      then have "CHR ''-'' \<in> set (show_nat (nat i))" by (metis list.set_intros(1))
      then show ?thesis using show_nat_no_minus by blast
    next
      case False
      with i eq have "show_nat (nat i) = show_nat (nat j)"
        by (simp add: str_int_def)
      then have "nat i = nat j" by (rule show_nat_inj)
      with i False show ?thesis by simp
    qed
  qed
qed simp

section \<open>The statistics line on real numbers\<close>

lemma round_half_even_between:
  assumes "of_int n - 1 / 2 < x" and "x < of_int n + 1 / 2"
  shows "round_half_even x = n"
proof -
  have "\<lfloor>x\<rfloor> = n \<or> \<lfloor>x\<rfloor> = n - 1"
    using assms by linarith
  then show ?thesis
  proof
    assume f: "\<lfloor>x\<rfloor> = n"
    with assms have "x - of_int \<lfloor>x\<rfloor> < 1 / 2" by simp
    with f show ?thesis by (simp add: round_half_even_def Let_def)
  next
    assume f: "\<lfloor>x\<rfloor> = n - 1"
    with assms have "1 / 2 < x - of_int \<lfloor>x\<rfloor>" by simp
    with f show ?thesis by (simp add: round_half_even_def Let_def)
  qed
qed

lemma exp_one_bounds: "271828 / 100000 < exp (1::real) \<and> exp (1::real) < 271829 / 100000"
proof -
  obtain t :: real where t: "0 < \<bar>t\<bar>" "\<bar>t\<bar> < \<bar>1::real\<bar>"
    and e: "exp (1::real) = (\<Sum>m<10. (1 ^ m) / fact m) + (exp t / fact 10) * 1 ^ 10"
    using Maclaurin_exp_lt [of "1::real" 10] by auto
  have s: "(\<Sum>m<10. (1::real) ^ m / fact m) = 98641 / 36288"
    by (simp add: eval_nat_numeral)
  have f: "fact 10 = (3628800::real)"
    by (simp add: eval_nat_numeral)
  have pos: "0 < exp t" by simp
  have "exp t \<le> exp 1" using t by simp
  then have le: "exp t \<le> 3" using exp_le by linarith
  have "exp (1::real) = 98641 / 36288 + exp t / 3628800"
    unfolding e s f by simp
  with pos le show ?thesis by linarith
qed

lemma exp_loss_bounds:
  "271815 / 100000 < exp (99996 / 100000 :: real) \<and> exp (99996 / 100000 :: real) < 271825 / 100000"
proof -
  let ?y = "4 / 100000 :: real"
  have split: "exp (99996 / 100000 :: real) = exp 1 * exp (- ?y)"
    by (simp flip: exp_add)
  have lo: "1 - ?y \<le> exp (- ?y)"
    using exp_ge_add_one_self [of "- ?y"] by simp
  have "1 + ?y \<le> exp ?y"
    using exp_ge_add_one_self [of ?y] by simp
  then have "exp (- ?y) \<le> 1 / (1 + ?y)"
    by (simp add: exp_minus field_simps)
  then have hi: "exp (- ?y) \<le> 100000 / 100004"
    by simp
  have e: "271828 / 100000 < exp (1::real)" "exp (1::real) < 271829 / 100000"
    using exp_one_bounds by simp_all
  have pos: "0 < exp (- ?y)" by simp
  have "271828 / 100000 * (1 - ?y) \<le> exp 1 * exp (- ?y)"
    by (rule mult_mono) (use e lo in simp_all)
  moreover have "exp 1 * exp (- ?y) \<le> 271829 / 100000 * (100000 / 100004)"
    by (rule mult_mono) (use e hi in simp_all)
  ultimately show ?thesis
    unfolding split by simp
qed

lemma fmt4_loss: "fmt4_real (99996 / 100000) = ''1.0000''"
proof -
  have "round_half_even (99996 / 100000 * 10000) = 10000"
    by (rule round_half_even_between) simp_all
  then show ?thesis
    by (simp add: fmt4_real_def pad4_def digit_char_def str_int_def show_nat.simps)
qed

lemma fmt4_exp_loss: "fmt4_real (exp (99996 / 100000)) = ''2.7182''"
proof -
  have "round_half_even (exp (99996 / 100000) * 10000) = 27182"
    by (rule round_half_even_between) (use exp_loss_bounds in simp_all)
  then show ?thesis
    by (simp add: fmt4_real_def pad4_def digit_char_def str_int_def show_nat.simps)
qed

lemma fmt4_exp_one: "fmt4_real (exp 1) = ''2.7183''"
proof -
  have "round_half_even (exp 1 * 10000) = 27183"
    by (rule round_half_even_between) (use exp_one_bounds in simp_all)
  then show ?thesis
    by (simp add: fmt4_real_def pad4_def digit_char_def str_int_def show_nat.simps)
qed

lemma single_step_log:
  assumes "''new_sampler'' \<in> extra" and "num_epochs c = 1" and "total_step c = 1"
  shows "log_lines (log_events (final (training_loop ev c (start_state extra d e)))) =
           [stats ev c 1 1 (batch_loss ev (d, e) (next_batch ev 0)) @ [CHR 0x0A]]"
proof -
  let ?st = "bind ''epoch'' (bind ''f''
    ((start_state extra d e)\<lparr>log_events := log_events (start_state extra d e) @ [Open]\<rparr>))"
  have g: "''new_sampler'' \<in> globals ?st"
    using assms(1) by (simp add: start_state_def)
  have line: "log_events (final (train_step ev c 1 1 ?st)) =
      [Open, Write (stats ev c 1 1 (batch_loss ev (d, e) (next_batch ev 0)) @ [CHR 0x0A]), Flush]"
    using train_step_line [OF g, of ev c 1 1] by (simp add: start_state_def)
  have "log_events (final (training_loop ev c (start_state extra d e))) =
      [Open, Write (stats ev c 1 1 (batch_loss ev (d, e) (next_batch ev 0)) @ [CHR 0x0A]), Flush] @
        (if completed (training_loop ev c (start_state extra d e)) then [Close] else [])"
  proof (cases "train_step ev c 1 1 ?st")
    case (Ok st')
    have sw: "log_events (final (save_weights ev c 1 st')) = log_events st'"
      by (rule save_weights_log)
    from Ok line assms(2,3) sw show ?thesis
      by (cases "save_weights ev c 1 st'") (simp_all add: training_loop_def run_epoch_def)
  next
    case (Raise err st')
    with line assms(2,3) show ?thesis
      by (simp add: training_loop_def run_epoch_def)
  qed
  then have "log_lines (log_events (final (training_loop ev c (start_state extra d e)))) =
      [stats ev c 1 1 (batch_loss ev (d, e) (next_batch ev 0)) @ [CHR 0x0A]]"
    by (simp add: log_lines_def)
  then show ?thesis .
qed

section \<open>The validation pass and the scoring: auxiliary facts\<close>

lemma infer_one_fields:
  "encoder_calls (infer_one ve p st) = encoder_calls st @ [snd p]"
  "sample_calls (infer_one ve p st) = sample_calls st @ [unsqueeze ve (val_encoder ve (snd p))]"
  "getitem (pred_result (infer_one ve p st)) k =
     getitem (pred_result st) k @
       (if fst p = k then [clean_sentence ve (sample ve (unsqueeze ve (val_encoder ve (snd p))))]
        else [])"
  "dom (pred_result (infer_one ve p st)) = insert (fst p) (dom (pred_result st))"
  by (simp_all add: infer_one_def Let_def getitem_def)

lemma infer_all_encoder_calls:
  "encoder_calls (infer_all ve ps st) = encoder_calls st @ map snd ps"
  by (induction ps arbitrary: st) (simp_all add: infer_one_fields)

lemma infer_all_sample_calls:
  "sample_calls (infer_all ve ps st) =
     sample_calls st @ map (\<lambda>p. unsqueeze ve (val_encoder ve (snd p))) ps"
  by (induction ps arbitrary: st) (simp_all add: infer_one_fields)

lemma infer_all_getitem:
  "getitem (pred_result (infer_all ve ps st)) k =
     getitem (pred_result st) k @
       map (\<lambda>p. clean_sentence ve (sample ve (unsqueeze ve (val_encoder ve (snd p)))))
         (filter (\<lambda>p. fst p = k) ps)"
  by (induction ps arbitrary: st) (simp_all add: infer_one_fields)

lemma infer_all_dom:
  "dom (pred_result (infer_all ve ps st)) = dom (pred_result st) \<union> fst ` set ps"
  by (induction ps arbitrary: st) (auto simp: infer_one_fields)

lemma getitem_val_start: "getitem (pred_result val_start) k = []"
  by (simp add: val_start_def getitem_def)

lemma length_filter_key: "length (filter (\<lambda>p. f p = k) ps) = count_list (map f ps) k"
  by (induction ps) simp_all

lemma captions_per_key_total:
  "(\<Sum>k\<in>f ` set ps. length (filter (\<lambda>p. f p = k) ps)) = length ps"
proof -
  have "(\<Sum>k\<in>set (map f ps). count_list (map f ps) k) = length (map f ps)"
    by (rule sum_count_set) simp_all
  then show ?thesis by (simp add: length_filter_key)
qed

lemma scored_pairs_Cons:
  "scored_pairs ((k, r) # refs) preds =
     (case map_of preds k of None \<Rightarrow> [] | Some p \<Rightarrow> [(r, p)]) @ scored_pairs refs preds"
  by (simp add: scored_pairs_def)

lemma scored_pairs_Nil: "scored_pairs [] preds = []"
  by (simp add: scored_pairs_def)

lemma scored_pairs_drop_refs:
  "scored_pairs (filter (\<lambda>kr. fst kr \<in> fst ` set preds) refs) preds = scored_pairs refs preds"
proof (induction refs)
  case Nil
  show ?case by simp
next
  case (Cons kr refs)
  obtain k r where kr: "kr = (k, r)" by (cases kr)
  show ?case
  proof (cases "k \<in> fst ` set preds")
    case True
    with Cons kr show ?thesis by (simp add: scored_pairs_Cons)
  next
    case False
    then have "map_of preds k = None" by (simp add: map_of_eq_None_iff)
    with False Cons kr show ?thesis by (simp add: scored_pairs_Cons)
  qed
qed

lemma map_of_filter_keys:
  "map_of (filter (\<lambda>kp. fst kp \<in> K) preds) k = (if k \<in> K then map_of preds k else None)"
  by (induction preds) auto

lemma scored_pairs_drop_preds_aux:
  "fst ` set xs \<subseteq> K \<Longrightarrow>
     scored_pairs xs (filter (\<lambda>kp. fst kp \<in> K) preds) = scored_pairs xs preds"
proof (induction xs)
  case Nil
  show ?case by (simp add: scored_pairs_Nil)
next
  case (Cons kr xs)
  obtain k r where kr: "kr = (k, r)" by (cases kr)
  with Cons show ?case by (simp add: scored_pairs_Cons map_of_filter_keys)
qed

lemma scored_pairs_drop_preds:
  "scored_pairs refs (filter (\<lambda>kp. fst kp \<in> fst ` set refs) preds) = scored_pairs refs preds"
  by (rule scored_pairs_drop_preds_aux) simp

section \<open>The training loop as the notebook has it\<close>

text \<open>
  C10. For every run of the training loop with \<^verbatim>\<open>num_epochs >= 1\<close> and
  \<^verbatim>\<open>total_step >= 1\<close> in a kernel where \<^verbatim>\<open>new_sampler\<close> was never bound, the first
  step binds \<^verbatim>\<open>new_saosmpler\<close> and then reads \<^verbatim>\<open>new_sampler\<close>, so the loop raises
  \<^verbatim>\<open>NameError\<close> before any batch is fetched: the log file has been opened and holds
  no line, nothing was printed, no optimizer step was applied, no checkpoint was saved,
  and the parameters are the initial ones.
\<close>

theorem name_error_at_first_step:
  assumes "''new_sampler'' \<notin> extra" and "1 \<le> num_epochs c" and "1 \<le> total_step c"
  shows "training_loop ev c (start_state extra d e) =
           Raise (NameError ''new_sampler'')
             \<lparr>globals = {''new_saosmpler'', ''indices'', ''i_step'', ''epoch'', ''f''} \<union>
                         (notebook_globals \<union> extra),
              log_events = [Open], stdout = [], saved = [],
              decoder = d, encoder = e, fetched = 0, opt_steps = 0\<rparr>
         \<and> ''new_sampler'' \<notin> {''new_saosmpler'', ''indices'', ''i_step'', ''epoch'', ''f''} \<union>
                               (notebook_globals \<union> extra)
         \<and> log_lines [Open] = []"
proof -
  have "''new_sampler'' \<notin> globals (start_state extra d e)"
    using assms(1) by (simp add: start_state_def new_sampler_not_bound)
  from training_loop_unbound [OF this assms(2,3)]
  have "training_loop ev c (start_state extra d e) =
           Raise (NameError ''new_sampler'')
             \<lparr>globals = {''new_saosmpler'', ''indices'', ''i_step'', ''epoch'', ''f''} \<union>
                         (notebook_globals \<union> extra),
              log_events = [Open], stdout = [], saved = [],
              decoder = d, encoder = e, fetched = 0, opt_steps = 0\<rparr>"
    by (simp add: start_state_def bind_def)
  moreover have "''new_sampler'' \<notin> {''new_saosmpler'', ''indices'', ''i_step'', ''epoch'', ''f''} \<union>
                               (notebook_globals \<union> extra)"
    using assms(1) by (simp add: new_sampler_not_bound)
  moreover have "log_lines [Open] = []"
    by (simp add: log_lines_def)
  ultimately show ?thesis by blast
qed

theorem name_error_at_first_step_witness:
  "training_loop toy_env notebook_config (start_state {} 0 0) =
           Raise (NameError ''new_sampler'')
             \<lparr>globals = {''new_saosmpler'', ''indices'', ''i_step'', ''epoch'', ''f''} \<union>
                         (notebook_globals \<union> {}),
              log_events = [Open], stdout = [], saved = [],
              decoder = 0, encoder = 0, fetched = 0, opt_steps = 0\<rparr>
         \<and> ''new_sampler'' \<notin> {''new_saosmpler'', ''indices'', ''i_step'', ''epoch'', ''f''} \<union>
                               (notebook_globals \<union> {})
         \<and> log_lines [Open] = []"
  using name_error_at_first_step [of "{}" notebook_config toy_env 0 0]
  by (simp add: notebook_config_def)

text \<open>
  C1. Every iteration of the training loop, for each epoch in [1, num_epochs] and each
  step in [1, total_step], is to sample a batch, run the forward pass, compute the loss,
  backpropagate and apply exactly one optimizer step. The notebook's own run (three
  epochs of 3236 steps, started in a fresh kernel) does none of this: it stops in its
  first iteration with \<^verbatim>\<open>NameError\<close>, having fetched no batch and applied no
  optimizer step, whatever the models and the data are.
\<close>

theorem notebook_run_applies_no_optimizer_step:
  "raised (training_loop ev notebook_config (start_state {} d e)) =
     Some (NameError ''new_sampler'')
   \<and> fetched (final (training_loop ev notebook_config (start_state {} d e))) = 0
   \<and> opt_steps (final (training_loop ev notebook_config (start_state {} d e))) = 0
   \<and> decoder (final (training_loop ev notebook_config (start_state {} d e))) = d
   \<and> encoder (final (training_loop ev notebook_config (start_state {} d e))) = e"
proof -
  have "''new_sampler'' \<notin> globals (start_state {} d e)"
    by (simp add: start_state_def new_sampler_not_bound)
  moreover have "1 \<le> num_epochs notebook_config" "1 \<le> total_step notebook_config"
    by (simp_all add: notebook_config_def)
  ultimately show ?thesis
    by (simp add: training_loop_unbound start_state_def)
qed

text \<open>
  C8. Every training step is to append exactly one line
  \<^verbatim>\<open>Epoch [e/E], Step [s/S], Loss: <f.4>, Perplexity: <f.4>\<close> to the log file. A run of
  one epoch of one step in a fresh kernel starts its step and writes no line: the log
  file is left empty.
\<close>

theorem single_step_run_writes_no_line:
  "raised (training_loop ev
             \<lparr>num_epochs = 1, total_step = 1, save_every = 1, print_every = 20\<rparr>
             (start_state {} d e)) = Some (NameError ''new_sampler'')
   \<and> log_lines (log_events (final (training_loop ev
             \<lparr>num_epochs = 1, total_step = 1, save_every = 1, print_every = 20\<rparr>
             (start_state {} d e)))) = []"
proof -
  have "''new_sampler'' \<notin> globals (start_state {} d e)"
    by (simp add: start_state_def new_sampler_not_bound)
  then show ?thesis
    by (simp add: training_loop_unbound start_state_def log_lines_def)
qed

text \<open>
  C2 as stated fails: the perplexity on a line is not the exponential of the loss shown
  on that line. A step with the loss 0.99996 logs the loss as 1.0000 and the perplexity
  as 2.7182, while the exponential of 1.0000 is not 2.7182, and is rendered 2.7183.
\<close>

theorem logged_perplexity_is_not_exp_of_logged_loss:
  "log_lines (log_events (final
      (training_loop real_env one_step_config (start_state {''new_sampler''} 0 0)))) =
     [''Epoch [1/1], Step [1/1], Loss: 1.0000, Perplexity: 2.7182'' @ [CHR 0x0A]]
   \<and> fmt4_real 1 = ''1.0000''
   \<and> exp (1::real) \<noteq> 27182 / 10000
   \<and> fmt4_real (exp 1) = ''2.7183''"
proof -
  have "''new_sampler'' \<in> {''new_sampler''}" by simp
  from single_step_log [OF this, of one_step_config real_env 0 0]
  have "log_lines (log_events (final
      (training_loop real_env one_step_config (start_state {''new_sampler''} 0 0)))) =
     [stats real_env one_step_config 1 1 (99996 / 100000) @ [CHR 0x0A]]"
    by (simp add: one_step_config_def real_env_def)
  moreover have "stats real_env one_step_config 1 1 (99996 / 100000) =
      ''Epoch [1/1], Step [1/1], Loss: 1.0000, Perplexity: 2.7182''"
    using fmt4_loss fmt4_exp_loss
    by (simp add: stats_def one_step_config_def real_env_def str_int_def show_nat.simps
        digit_char_def)
  moreover have "fmt4_real 1 = ''1.0000''"
  proof -
    have "round_half_even (1 * 10000) = 10000"
      by (rule round_half_even_between) simp_all
    then show ?thesis
      by (simp add: fmt4_real_def pad4_def digit_char_def str_int_def show_nat.simps)
  qed
  moreover have "exp (1::real) \<noteq> 27182 / 10000"
    using exp_one_bounds by simp
  ultimately show ?thesis
    using fmt4_exp_one by simp
qed

text \<open>
  C2, amended. Every line in the log file, of any run, has the form
  \<^verbatim>\<open>Epoch [e/E], Step [s/S], Loss: <a>, Perplexity: <b>\<close> where, for one loss value l
  that the forward pass computed, a is the rendering \<^verbatim>\<open>:.4f\<close> of l and b is the
  rendering \<^verbatim>\<open>:.4f\<close> of \<^verbatim>\<open>np.exp(l)\<close>: the perplexity is computed from the loss
  itself, not from the four decimals shown, and E and S are the configured numbers of
  epochs and of steps.
\<close>

theorem logged_line_fields:
  "\<forall>line \<in> set (log_lines (log_events (final (training_loop ev c (start_state extra d e))))).
     \<exists>epoch i p b.
       line = ''Epoch ['' @ str_int epoch @ ''/'' @ str_int (num_epochs c) @ ''], Step ['' @
              str_int i @ ''/'' @ str_int (total_step c) @ ''], Loss: '' @
              fmt4 ev (batch_loss ev p b) @ '', Perplexity: '' @
              fmt4 ev (np_exp ev (batch_loss ev p b)) @ [CHR 0x0A]"
proof -
  obtain ws where lines: "log_lines (log_events (final (training_loop ev c (start_state extra d e)))) = ws"
    and form: "\<forall>w\<in>set ws. \<exists>ep k p b. w = stats ev c ep k (batch_loss ev p b) @ [CHR 0x0A]"
    using training_loop_log_shape [of ev c extra d e] by auto
  have "stats ev c ep k l @ [CHR 0x0A] =
      ''Epoch ['' @ str_int ep @ ''/'' @ str_int (num_epochs c) @ ''], Step ['' @
      str_int k @ ''/'' @ str_int (total_step c) @ ''], Loss: '' @
      fmt4 ev l @ '', Perplexity: '' @ fmt4 ev (np_exp ev l) @ [CHR 0x0A]" for ep k l
    by (simp add: stats_def)
  with form show ?thesis unfolding lines by metis
qed

theorem logged_line_fields_witness:
  "\<exists>epoch i p b.
     ''Epoch [1/1], Step [1/2], Loss: 30.0000, Perplexity: 60.0000'' @ [CHR 0x0A] =
       ''Epoch ['' @ str_int epoch @ ''/'' @ str_int (num_epochs two_step_config) @ ''], Step ['' @
       str_int i @ ''/'' @ str_int (total_step two_step_config) @ ''], Loss: '' @
       fmt4 toy_env (batch_loss toy_env p b) @ '', Perplexity: '' @
       fmt4 toy_env (np_exp toy_env (batch_loss toy_env p b)) @ [CHR 0x0A]"
proof -
  have lines: "log_lines (log_events (final
      (training_loop toy_env two_step_config (start_state {''new_sampler''} 10 20)))) =
     [''Epoch [1/1], Step [1/2], Loss: 30.0000, Perplexity: 60.0000'' @ [CHR 0x0A],
      ''Epoch [1/1], Step [2/2], Loss: 34.0000, Perplexity: 68.0000'' @ [CHR 0x0A]]"
    by code_simp
  have mem: "''Epoch [1/1], Step [1/2], Loss: 30.0000, Perplexity: 60.0000'' @ [CHR 0x0A] \<in>
      set [''Epoch [1/1], Step [1/2], Loss: 30.0000, Perplexity: 60.0000'' @ [CHR 0x0A],
           ''Epoch [1/1], Step [2/2], Loss: 34.0000, Perplexity: 68.0000'' @ [CHR 0x0A]]"
    by (rule list.set_intros)
  show ?thesis
    using logged_line_fields [of toy_env two_step_config "{''new_sampler''}" 10 20]
    unfolding lines by (rule bspec) (rule mem)
qed



text \<open>
  C3. At the end of every epoch e with \<^verbatim>\<open>e % save_every == 0\<close> the loop is to save the
  decoder's and the encoder's parameters to \<^verbatim>\<open>decoder-<e>.pkl\<close> and
  \<^verbatim>\<open>encoder-<e>.pkl\<close> under \<^verbatim>\<open>./models\<close>. In the notebook's own run every epoch
  qualifies (\<^verbatim>\<open>save_every\<close> is 1), and no file is saved: the run stops in the first
  step of epoch 1 with \<^verbatim>\<open>NameError\<close>, so no epoch reaches its end, whatever the models,
  the data and the file system are.
\<close>

theorem notebook_run_saves_no_checkpoint:
  "1 mod save_every notebook_config = 0
   \<and> raised (training_loop ev notebook_config (start_state {} d e)) =
       Some (NameError ''new_sampler'')
   \<and> saved (final (training_loop ev notebook_config (start_state {} d e))) = []"
proof -
  have "''new_sampler'' \<notin> globals (start_state {} d e)"
    by (simp add: start_state_def new_sampler_not_bound)
  moreover have "1 \<le> num_epochs notebook_config" "1 \<le> total_step notebook_config"
    by (simp_all add: notebook_config_def)
  ultimately have "raised (training_loop ev notebook_config (start_state {} d e)) =
       Some (NameError ''new_sampler'')
   \<and> saved (final (training_loop ev notebook_config (start_state {} d e))) = []"
    by (simp add: training_loop_unbound start_state_def)
  moreover have "1 mod save_every notebook_config = 0"
    by (simp add: notebook_config_def)
  ultimately show ?thesis by blast
qed

section \<open>The validation pass\<close>

text \<open>
  C5. Over the pairs the validation loader yields, the pass runs the encoder once per
  pair, on that pair's image and in the loader's order, and the decoder's sampling once
  per pair, on the encoder's features of that image. The captions listed under an image
  id are the cleaned sampling outputs of exactly the pairs with that id, in order; the
  ids listed are the ids of the pairs; and the captions number as many as the pairs, one
  per pair.
\<close>

theorem validation_pass_one_caption_per_pair:
  "encoder_calls (infer_all ve ps val_start) = map snd ps
   \<and> sample_calls (infer_all ve ps val_start) =
       map (\<lambda>p. unsqueeze ve (val_encoder ve (snd p))) ps
   \<and> (\<forall>k. getitem (pred_result (infer_all ve ps val_start)) k =
          map (\<lambda>p. clean_sentence ve (sample ve (unsqueeze ve (val_encoder ve (snd p)))))
            (filter (\<lambda>p. fst p = k) ps))
   \<and> dom (pred_result (infer_all ve ps val_start)) = fst ` set ps
   \<and> (\<Sum>k\<in>fst ` set ps. length (getitem (pred_result (infer_all ve ps val_start)) k)) =
       length ps"
proof -
  have get: "\<And>k. getitem (pred_result (infer_all ve ps val_start)) k =
          map (\<lambda>p. clean_sentence ve (sample ve (unsqueeze ve (val_encoder ve (snd p)))))
            (filter (\<lambda>p. fst p = k) ps)"
    by (simp add: infer_all_getitem getitem_val_start)
  have "(\<Sum>k\<in>fst ` set ps. length (getitem (pred_result (infer_all ve ps val_start)) k)) =
      length ps"
    using captions_per_key_total [of fst ps] by (simp add: get)
  moreover have "encoder_calls (infer_all ve ps val_start) = map snd ps"
    by (simp add: infer_all_encoder_calls val_start_def)
  moreover have "sample_calls (infer_all ve ps val_start) =
      map (\<lambda>p. unsqueeze ve (val_encoder ve (snd p))) ps"
    by (simp add: infer_all_sample_calls val_start_def)
  moreover have "dom (pred_result (infer_all ve ps val_start)) = fst ` set ps"
    by (simp add: infer_all_dom val_start_def)
  ultimately show ?thesis using get by blast
qed

section \<open>The scoring\<close>

text \<open>
  C4. In the aggregation over a reference map and a prediction map, a key that only one
  of the maps has takes no part: removing from either map the keys the other lacks
  leaves the result as it is. For the references \<^verbatim>\<open>{1: ["a dog"], 2: ["a cat"]}\<close> and
  the predictions \<^verbatim>\<open>{1: ["a dog"]}\<close> the result is the score of image 1 alone, the same
  as without image 2.
\<close>

theorem bleu_score_skips_unmatched_keys:
  "bleu_score per_image (filter (\<lambda>kr. fst kr \<in> fst ` set preds) refs) preds =
     bleu_score per_image refs preds
   \<and> bleu_score per_image refs (filter (\<lambda>kp. fst kp \<in> fst ` set refs) preds) =
       bleu_score per_image refs preds
   \<and> bleu_score per_image [(1, [''a dog'']), (2, [''a cat''])] [(1, [''a dog''])] =
       Some (per_image [''a dog''] [''a dog''])
   \<and> bleu_score per_image [(1, [''a dog'']), (2, [''a cat''])] [(1, [''a dog''])] =
       bleu_score per_image [(1, [''a dog''])] [(1, [''a dog''])]"
  by (simp add: bleu_score_def scored_pairs_drop_refs scored_pairs_drop_preds
      scored_pairs_Cons scored_pairs_Nil)

end
